theory Spec2Isabelle
  imports Main "HOL-Library.Sublist" "HOL-Library.AList"
begin

section \<open>Text primitives of the replacement script\<close>

text \<open>
  The script \<^verbatim>\<open>scripts/replace_placeholders.py\<close> works on Python strings. A text is
  modelled as a \<^typ>\<open>string\<close>, the list of the bytes of its UTF-8 encoding. Every match
  text of the script is ASCII, and so is every name that passes validation (up to one
  trailing line feed), so scanning bytes and scanning code points find the same
  occurrences. The case conversions below are the ASCII part of Python's
  \<^verbatim>\<open>str.upper\<close>, \<^verbatim>\<open>str.lower\<close> and \<^verbatim>\<open>str.capitalize\<close>; the script applies them to the
  project name only.
\<close>

definition ascii_lowercase :: string where
  "ascii_lowercase = ''abcdefghijklmnopqrstuvwxyz''"

definition ascii_uppercase :: string where
  "ascii_uppercase = ''ABCDEFGHIJKLMNOPQRSTUVWXYZ''"

definition digits :: string where
  "digits = ''0123456789''"

definition newline :: char where
  "newline = CHR 0x0A"

definition upper_char :: "char \<Rightarrow> char" where
  "upper_char c =
     (case map_of (zip ascii_lowercase ascii_uppercase) c of Some u \<Rightarrow> u | None \<Rightarrow> c)"

definition lower_char :: "char \<Rightarrow> char" where
  "lower_char c =
     (case map_of (zip ascii_uppercase ascii_lowercase) c of Some l \<Rightarrow> l | None \<Rightarrow> c)"

definition str_upper :: "string \<Rightarrow> string" where
  "str_upper s = map upper_char s"

definition str_lower :: "string \<Rightarrow> string" where
  "str_lower s = map lower_char s"

text \<open>\<^verbatim>\<open>str.capitalize()\<close>: the first character upper-cased, all the others lower-cased.\<close>

fun str_capitalize :: "string \<Rightarrow> string" where
  "str_capitalize [] = []"
| "str_capitalize (c # cs) = upper_char c # map lower_char cs"

text \<open>
  \<^verbatim>\<open>s.replace(old, new)\<close>: all occurrences of \<open>old\<close>, found from the left without overlap,
  are replaced. With an empty \<open>old\<close> Python puts \<open>new\<close> before every character and at the
  end.
\<close>

function replace_scan :: "string \<Rightarrow> string \<Rightarrow> string \<Rightarrow> string" where
  "replace_scan old new [] = []"
| "replace_scan old new (c # cs) =
     (if old \<noteq> [] \<and> prefix old (c # cs)
      then new @ replace_scan old new (drop (length old) (c # cs))
      else c # replace_scan old new cs)"
  by pat_completeness auto
termination
  by (relation "measure (\<lambda>(old, new, s). length s)") (auto simp: neq_Nil_conv)

definition str_replace :: "string \<Rightarrow> string \<Rightarrow> string \<Rightarrow> string" where
  "str_replace old new s =
     (if old = [] then new @ concat (map (\<lambda>c. c # new) s) else replace_scan old new s)"

text \<open>\<^verbatim>\<open>old in s\<close>: \<open>old\<close> occurs in \<open>s\<close> as a contiguous substring.\<close>

fun str_contains :: "string \<Rightarrow> string \<Rightarrow> bool" where
  "str_contains old [] = (old = [])"
| "str_contains old (c # cs) = (prefix old (c # cs) \<or> str_contains old cs)"

text \<open>\<^verbatim>\<open>s.replace("-", "_")\<close> on the name, the "snake" form.\<close>

definition snake :: "string \<Rightarrow> string" where
  "snake name = str_replace ''-'' ''_'' name"

text \<open>\<^verbatim>\<open>re.split(r'[-_]', name)\<close>: the pieces between the separators, empty pieces kept.\<close>

definition is_separator :: "char \<Rightarrow> bool" where
  "is_separator c = (c = CHR ''-'' \<or> c = CHR ''_'')"

fun re_split :: "string \<Rightarrow> string list" where
  "re_split [] = [[]]"
| "re_split (c # cs) =
     (if is_separator c then [] # re_split cs
      else (case re_split cs of [] \<Rightarrow> [[c]] | w # ws \<Rightarrow> (c # w) # ws))"

section \<open>Name validation\<close>

text \<open>
  \<^verbatim>\<open>re.match(r'^[a-zA-Z][a-zA-Z0-9_-]*$', name)\<close>. The star is greedy and the class does
  not contain the line feed, so the match consumes the longest run of class characters
  after the first letter; \<^verbatim>\<open>$\<close> then holds at the end of the string and also just
  before a line feed that is the last character.
\<close>

definition is_letter :: "char \<Rightarrow> bool" where
  "is_letter c = (c \<in> set ascii_lowercase \<or> c \<in> set ascii_uppercase)"

definition is_name_char :: "char \<Rightarrow> bool" where
  "is_name_char c = (is_letter c \<or> c \<in> set digits \<or> c = CHR ''_'' \<or> c = CHR ''-'')"

definition at_dollar :: "string \<Rightarrow> bool" where
  "at_dollar rest = (rest = [] \<or> rest = [newline])"

fun re_match_name :: "string \<Rightarrow> bool" where
  "re_match_name [] = False"
| "re_match_name (c # cs) = (is_letter c \<and> at_dollar (dropWhile is_name_char cs))"

datatype value_error = Empty_name | Bad_pattern | Too_long

definition validate_project_name :: "string \<Rightarrow> value_error + unit" where
  "validate_project_name name =
     (if name = [] then Inl Empty_name
      else if \<not> re_match_name name then Inl Bad_pattern
      else if length name > 50 then Inl Too_long
      else Inr ())"

section \<open>Rule derivation\<close>

definition to_camel_case :: "string \<Rightarrow> string" where
  "to_camel_case name = concat (map str_capitalize (re_split name))"

definition generate_replacements :: "string \<Rightarrow> (string \<times> string) list" where
  "generate_replacements new_name =
     [(''cpp-template'', new_name),
      (''cpp_template'', snake new_name),
      (''CPP-TEMPLATE'', str_upper new_name),
      (''CPP_TEMPLATE'', str_upper (snake new_name)),
      (''CppTemplate'', to_camel_case new_name),
      (''cpp_template'', str_lower (snake new_name)),
      (''https://github.com/your-username/cpp-template'',
       ''https://github.com/your-username/'' @ new_name)]"

text \<open>The loop of \<^verbatim>\<open>process_file\<close> that applies the rules, in order, to the buffer.\<close>

fun apply_replacements :: "(string \<times> string) list \<Rightarrow> string \<Rightarrow> string" where
  "apply_replacements [] content = content"
| "apply_replacements ((old, new) # rules) content =
     apply_replacements rules (str_replace old new content)"

section \<open>The file system under the project root\<close>

text \<open>
  A path is the list of its components below the project root; \<open>[]\<close> is the root
  itself. The tree is an association list from paths to nodes. A regular file holds
  either text (the bytes of valid UTF-8) or bytes that do not decode, and its
  modification time; that is the metadata \<^verbatim>\<open>shutil.copy2\<close> carries over. Permissions,
  links and full disks are outside the model, and the platform is POSIX: text written
  with \<^verbatim>\<open>\n\<close> is stored as it is. Beside the tree the state holds the lines printed so
  far, a clock that ticks at every write, and the sequence of mutating operations.
\<close>

type_synonym path = "string list"

datatype content = Text string | Binary string

record file_node =
  data :: content
  mtime :: nat

datatype node = Dir | File file_node

datatype os_error =
  FileNotFoundError | FileExistsError | IsADirectoryError | NotADirectoryError
  | UnicodeDecodeError

datatype fs_event =
  Ev_rmtree path | Ev_mkdir path | Ev_copy path path | Ev_write path | Ev_rename path path

record stats =
  processed :: nat
  updated :: nat
  errors :: nat

datatype message =
    Msg_starting string
  | Msg_creating_backup
  | Msg_backed_up path
  | Msg_file_not_found path
  | Msg_updated path
  | Msg_no_changes path
  | Msg_error_processing path os_error
  | Msg_replacing string
  | Msg_checking_directories
  | Msg_renamed_directory string
  | Msg_updated_include_path path
  | Msg_error_updating path os_error
  | Msg_summary string stats bool "(string \<times> string) list"
  | Msg_completed
  | Msg_error_during_replacement os_error
  | Msg_backup_available
  | Msg_root_missing
  | Msg_no_cmakelists
  | Msg_already_uses_name string
  | Msg_aborted
  | Msg_dry_run_mode
  | Msg_would_apply "(string \<times> string) list"
  | Msg_would_process nat

record world =
  fs :: "(path \<times> node) list"
  out :: "message list"
  now :: nat
  events :: "fs_event list"

definition print :: "message \<Rightarrow> world \<Rightarrow> world" where
  "print m w = w\<lparr>out := out w @ [m]\<rparr>"

definition lookup :: "world \<Rightarrow> path \<Rightarrow> node option" where
  "lookup w p = map_of (fs w) p"

text \<open>\<^verbatim>\<open>Path.exists()\<close>\<close>

definition exists :: "world \<Rightarrow> path \<Rightarrow> bool" where
  "exists w p = (lookup w p \<noteq> None)"

definition parent :: "path \<Rightarrow> path" where
  "parent p = butlast p"

text \<open>
  Reading in text mode translates \<^verbatim>\<open>\r\n\<close> and a lone \<^verbatim>\<open>\r\<close> to \<^verbatim>\<open>\n\<close> (universal
  newlines, the default of \<^verbatim>\<open>open\<close>).
\<close>

fun universal_newlines :: "string \<Rightarrow> string" where
  "universal_newlines [] = []"
| "universal_newlines [c] = [if c = CHR 0x0D then newline else c]"
| "universal_newlines (c # d # cs) =
     (if c = CHR 0x0D \<and> d = CHR 0x0A then newline # universal_newlines cs
      else if c = CHR 0x0D then newline # universal_newlines (d # cs)
      else c # universal_newlines (d # cs))"

text \<open>\<^verbatim>\<open>open(p, 'r', encoding='utf-8').read()\<close>\<close>

definition read_text :: "world \<Rightarrow> path \<Rightarrow> os_error + string" where
  "read_text w p =
     (case lookup w p of
        None \<Rightarrow> Inl FileNotFoundError
      | Some Dir \<Rightarrow> Inl IsADirectoryError
      | Some (File f) \<Rightarrow>
          (case data f of
             Binary b \<Rightarrow> Inl UnicodeDecodeError
           | Text s \<Rightarrow> Inr (universal_newlines s)))"

definition store :: "path \<Rightarrow> node \<Rightarrow> world \<Rightarrow> world" where
  "store p n w = w\<lparr>fs := AList.update p n (fs w)\<rparr>"

definition record_event :: "fs_event \<Rightarrow> world \<Rightarrow> world" where
  "record_event e w = w\<lparr>events := events w @ [e]\<rparr>"

definition tick :: "world \<Rightarrow> world" where
  "tick w = w\<lparr>now := Suc (now w)\<rparr>"

text \<open>
  \<^verbatim>\<open>open(p, 'w', encoding='utf-8').write(s)\<close>: an existing file is truncated and
  rewritten, a new one needs its directory.
\<close>

definition write_text :: "path \<Rightarrow> string \<Rightarrow> world \<Rightarrow> os_error + world" where
  "write_text p s w =
     (let written =
            record_event (Ev_write p) (tick (store p (File \<lparr>data = Text s, mtime = now w\<rparr>) w))
      in case lookup w p of
           Some Dir \<Rightarrow> Inl IsADirectoryError
         | Some (File f) \<Rightarrow> Inr written
         | None \<Rightarrow>
             (case lookup w (parent p) of
                Some Dir \<Rightarrow> Inr written
              | Some (File f) \<Rightarrow> Inl NotADirectoryError
              | None \<Rightarrow> Inl FileNotFoundError))"

text \<open>\<^verbatim>\<open>Path.mkdir()\<close>\<close>

definition mkdir :: "path \<Rightarrow> world \<Rightarrow> os_error + world" where
  "mkdir p w =
     (if exists w p then Inl FileExistsError
      else case lookup w (parent p) of
             Some Dir \<Rightarrow> Inr (record_event (Ev_mkdir p) (store p Dir w))
           | Some (File f) \<Rightarrow> Inl NotADirectoryError
           | None \<Rightarrow> Inl FileNotFoundError)"

text \<open>
  \<^verbatim>\<open>Path.mkdir(parents=True, exist_ok=True)\<close>: every missing directory on the way is
  made; a regular file on the way is an error.
\<close>

fun mkdir_each :: "path list \<Rightarrow> world \<Rightarrow> os_error + world" where
  "mkdir_each [] w = Inr w"
| "mkdir_each (d # ds) w =
     (case lookup w d of
        Some Dir \<Rightarrow> mkdir_each ds w
      | Some (File f) \<Rightarrow> Inl (if ds = [] then FileExistsError else NotADirectoryError)
      | None \<Rightarrow> mkdir_each ds (record_event (Ev_mkdir d) (store d Dir w)))"

definition mkdir_parents :: "path \<Rightarrow> world \<Rightarrow> os_error + world" where
  "mkdir_parents p w = mkdir_each (prefixes p) w"

text \<open>\<^verbatim>\<open>shutil.rmtree(p)\<close>: the directory and everything below it.\<close>

definition rmtree :: "path \<Rightarrow> world \<Rightarrow> os_error + world" where
  "rmtree p w =
     (case lookup w p of
        None \<Rightarrow> Inl FileNotFoundError
      | Some (File f) \<Rightarrow> Inl NotADirectoryError
      | Some Dir \<Rightarrow>
          Inr (record_event (Ev_rmtree p)
                 (w\<lparr>fs := filter (\<lambda>e. \<not> prefix p (fst e)) (fs w)\<rparr>)))"

text \<open>
  \<^verbatim>\<open>shutil.copy2(src, dst)\<close>: the bytes and the metadata of \<open>src\<close>; into \<open>dst\<close> under the
  name of \<open>src\<close> when \<open>dst\<close> is a directory.
\<close>

definition copy2 :: "path \<Rightarrow> path \<Rightarrow> world \<Rightarrow> os_error + world" where
  "copy2 src dst w =
     (case lookup w src of
        None \<Rightarrow> Inl FileNotFoundError
      | Some Dir \<Rightarrow> Inl IsADirectoryError
      | Some (File f) \<Rightarrow>
          (let target = (if lookup w dst = Some Dir \<and> src \<noteq> [] then dst @ [last src] else dst)
           in case lookup w target of
                Some Dir \<Rightarrow> Inl IsADirectoryError
              | Some (File g) \<Rightarrow>
                  Inr (record_event (Ev_copy src target) (store target (File f) w))
              | None \<Rightarrow>
                  (case lookup w (parent target) of
                     Some Dir \<Rightarrow>
                       Inr (record_event (Ev_copy src target) (store target (File f) w))
                   | Some (File g) \<Rightarrow> Inl NotADirectoryError
                   | None \<Rightarrow> Inl FileNotFoundError)))"

text \<open>
  \<^verbatim>\<open>Path.rename(dst)\<close>: the node and, for a directory, everything below it moves. The
  script renames only when \<open>dst\<close> does not exist.
\<close>

definition rename :: "path \<Rightarrow> path \<Rightarrow> world \<Rightarrow> os_error + world" where
  "rename src dst w =
     (if \<not> exists w src then Inl FileNotFoundError
      else if exists w dst then Inl FileExistsError
      else case lookup w (parent dst) of
             Some Dir \<Rightarrow>
               Inr (record_event (Ev_rename src dst)
                      (w\<lparr>fs := map (\<lambda>e. if prefix src (fst e)
                                        then (dst @ drop (length src) (fst e), snd e) else e)
                                 (fs w)\<rparr>))
           | Some (File f) \<Rightarrow> Inl NotADirectoryError
           | None \<Rightarrow> Inl FileNotFoundError)"

text \<open>\<^verbatim>\<open>root.rglob(name)\<close>: every path below the root whose last component is \<open>name\<close>.\<close>

definition rglob :: "world \<Rightarrow> string \<Rightarrow> path list" where
  "rglob w name = filter (\<lambda>p. p \<noteq> [] \<and> last p = name) (map fst (fs w))"

section \<open>The replacer\<close>

record replacer =
  new_name :: string
  backup :: bool
  replacements :: "(string \<times> string) list"

definition backup_dir :: path where
  "backup_dir = [''.backup_placeholders'']"

definition files_to_process :: "path list" where
  "files_to_process =
     [[''CMakeLists.txt''],
      [''README.md''],
      [''vcpkg.json''],
      [''tests'', ''CMakeLists.txt''],
      [''libs'', ''CMakeLists.txt''],
      [''src'', ''CMakeLists.txt''],
      [''examples'', ''CMakeLists.txt''],
      [''docs'', ''CUSTOMIZATION_GUIDE.md''],
      [''examples'', ''usage_scenarios.cpp'']]"

text \<open>\<^verbatim>\<open>PlaceholderReplacer.__init__\<close>: the name is validated before the rules are derived.\<close>

definition init_replacer :: "string \<Rightarrow> bool \<Rightarrow> value_error + replacer" where
  "init_replacer name b =
     (case validate_project_name name of
        Inl e \<Rightarrow> Inl e
      | Inr u \<Rightarrow> Inr \<lparr>new_name = name, backup = b, replacements = generate_replacements name\<rparr>)"

subsection \<open>Backup\<close>

text \<open>
  An exception leaves \<^verbatim>\<open>create_backup\<close> at once; the result is the exception, if any, and
  the state reached.
\<close>

fun backup_files :: "path list \<Rightarrow> world \<Rightarrow> os_error option \<times> world" where
  "backup_files [] w = (None, w)"
| "backup_files (p # ps) w =
     (if exists w p then
        (case mkdir_parents (parent (backup_dir @ p)) w of
           Inl e \<Rightarrow> (Some e, w)
         | Inr w1 \<Rightarrow>
             (case copy2 p (backup_dir @ p) w1 of
                Inl e \<Rightarrow> (Some e, w1)
              | Inr w2 \<Rightarrow> backup_files ps (print (Msg_backed_up p) w2)))
      else backup_files ps w)"

definition create_backup :: "replacer \<Rightarrow> world \<Rightarrow> os_error option \<times> world" where
  "create_backup r w =
     (if \<not> backup r then (None, w)
      else
        let w1 = print Msg_creating_backup w in
        case (if exists w1 backup_dir then rmtree backup_dir w1 else Inr w1) of
          Inl e \<Rightarrow> (Some e, w1)
        | Inr w2 \<Rightarrow>
            (case mkdir backup_dir w2 of
               Inl e \<Rightarrow> (Some e, w2)
             | Inr w3 \<Rightarrow> backup_files files_to_process w3))"

subsection \<open>Replacement\<close>

definition process_file :: "replacer \<Rightarrow> path \<Rightarrow> world \<Rightarrow> bool \<times> world" where
  "process_file r p w =
     (if \<not> exists w p then (False, print (Msg_file_not_found p) w)
      else
        case read_text w p of
          Inl e \<Rightarrow> (False, print (Msg_error_processing p e) w)
        | Inr original_content \<Rightarrow>
            (let content = apply_replacements (replacements r) original_content in
             if content \<noteq> original_content then
               (case write_text p content w of
                  Inl e \<Rightarrow> (False, print (Msg_error_processing p e) w)
                | Inr w1 \<Rightarrow> (True, print (Msg_updated p) w1))
             else (False, print (Msg_no_changes p) w)))"

fun process_files :: "replacer \<Rightarrow> path list \<Rightarrow> stats \<Rightarrow> world \<Rightarrow> stats \<times> world" where
  "process_files r [] st w = (st, w)"
| "process_files r (p # ps) st w =
     (let st1 = st\<lparr>processed := processed st + 1\<rparr>;
          (ok, w1) = process_file r p w
      in process_files r ps (if ok then st1\<lparr>updated := updated st1 + 1\<rparr> else st1) w1)"

definition process_all_files :: "replacer \<Rightarrow> world \<Rightarrow> stats \<times> world" where
  "process_all_files r w =
     process_files r files_to_process \<lparr>processed = 0, updated = 0, errors = 0\<rparr>
       (print (Msg_replacing (new_name r)) w)"

subsection \<open>Directory and include path\<close>

fun update_cmake_files :: "replacer \<Rightarrow> path list \<Rightarrow> world \<Rightarrow> world" where
  "update_cmake_files r [] w = w"
| "update_cmake_files r (p # ps) w =
     (case read_text w p of
        Inl e \<Rightarrow> update_cmake_files r ps (print (Msg_error_updating p e) w)
      | Inr content \<Rightarrow>
          if str_contains ''include/cpp-template'' content then
            (case write_text p
                    (str_replace ''include/cpp-template'' (''include/'' @ new_name r) content) w of
               Inl e \<Rightarrow> update_cmake_files r ps (print (Msg_error_updating p e) w)
             | Inr w1 \<Rightarrow> update_cmake_files r ps (print (Msg_updated_include_path p) w1))
          else update_cmake_files r ps w)"

definition update_directory_structure :: "replacer \<Rightarrow> world \<Rightarrow> os_error option \<times> world" where
  "update_directory_structure r w =
     (let w1 = print Msg_checking_directories w;
          include_old = [''include'', ''cpp-template''];
          include_new = [''include'', new_name r]
      in case (if exists w1 include_old \<and> \<not> exists w1 include_new
               then (case rename include_old include_new w1 of
                       Inl e \<Rightarrow> Inl e
                     | Inr w2 \<Rightarrow> Inr (print (Msg_renamed_directory (new_name r)) w2))
               else Inr w1) of
           Inl e \<Rightarrow> (Some e, w1)
         | Inr w2 \<Rightarrow> (None, update_cmake_files r (rglob w2 ''CMakeLists.txt'') w2))"

definition generate_summary_report :: "replacer \<Rightarrow> stats \<Rightarrow> world \<Rightarrow> world" where
  "generate_summary_report r st w =
     print (Msg_summary (new_name r) st (backup r) (replacements r)) w"

subsection \<open>The run and the command line\<close>

datatype py_exception = OS_error os_error | Value_error value_error | EOF_error

datatype outcome = Returned | Sys_exit nat | Uncaught py_exception

definition exit_status :: "outcome \<Rightarrow> nat" where
  "exit_status oc = (case oc of Returned \<Rightarrow> 0 | Sys_exit n \<Rightarrow> n | Uncaught e \<Rightarrow> 1)"

text \<open>The handler of \<^verbatim>\<open>run\<close>: report, point at the backup, \<^verbatim>\<open>sys.exit(1)\<close>.\<close>

definition run_failed :: "replacer \<Rightarrow> os_error \<Rightarrow> world \<Rightarrow> outcome \<times> world" where
  "run_failed r e w =
     (let w1 = print (Msg_error_during_replacement e) w
      in (Sys_exit 1, if backup r \<and> exists w1 backup_dir then print Msg_backup_available w1 else w1))"

definition run :: "replacer \<Rightarrow> world \<Rightarrow> outcome \<times> world" where
  "run r w =
     (case create_backup r (print (Msg_starting (new_name r)) w) of
        (Some e, w1) \<Rightarrow> run_failed r e w1
      | (None, w1) \<Rightarrow>
          (case process_all_files r w1 of
             (st, w2) \<Rightarrow>
               (case update_directory_structure r w2 of
                  (Some e, w3) \<Rightarrow> run_failed r e w3
                | (None, w3) \<Rightarrow>
                    (Returned, print Msg_completed (generate_summary_report r st w3)))))"

record args =
  project_name :: string
  no_backup :: bool
  dry_run :: bool

text \<open>
  \<^verbatim>\<open>main\<close> from the construction of the replacer on. The tree of the state is the one
  at \<^verbatim>\<open>--project-root\<close>.
\<close>

definition main_replace :: "args \<Rightarrow> world \<Rightarrow> outcome \<times> world" where
  "main_replace a w =
     (let w1 = (if dry_run a then print Msg_dry_run_mode w else w);
          b = (if dry_run a then False else \<not> no_backup a)
      in case init_replacer (project_name a) b of
           Inl e \<Rightarrow> (Uncaught (Value_error e), w1)
         | Inr replacer \<Rightarrow>
             if dry_run a then
               (Returned,
                print (Msg_would_process (length files_to_process))
                  (print (Msg_would_apply (replacements replacer)) w1))
             else run replacer w1)"

text \<open>
  \<^verbatim>\<open>main\<close>; \<open>stdin\<close> is the line the operator types at the prompt, \<open>None\<close> at end of
  input. \<^verbatim>\<open>main\<close> opens \<^verbatim>\<open>CMakeLists.txt\<close> with the encoding of the locale, taken to be
  UTF-8; an exception there, at the prompt or in the constructor is not caught.
\<close>

definition main :: "args \<Rightarrow> string option \<Rightarrow> world \<Rightarrow> outcome \<times> world" where
  "main a stdin w =
     (if \<not> exists w [] then (Sys_exit 1, print Msg_root_missing w)
      else if \<not> exists w [''CMakeLists.txt''] then (Sys_exit 1, print Msg_no_cmakelists w)
      else
        case read_text w [''CMakeLists.txt''] of
          Inl e \<Rightarrow> (Uncaught (OS_error e), w)
        | Inr cmake_content \<Rightarrow>
            if str_contains (''project('' @ project_name a) cmake_content then
              (let w1 = print (Msg_already_uses_name (project_name a)) w
               in case stdin of
                    None \<Rightarrow> (Uncaught EOF_error, w1)
                  | Some response \<Rightarrow>
                      if str_lower response \<noteq> ''y'' then (Sys_exit 0, print Msg_aborted w1)
                      else main_replace a w1)
            else main_replace a w)"

section \<open>Definitions for the statements\<close>

subsection \<open>The CamelCase form in the words of the specification\<close>

text \<open>
  The specification describes the CamelCase form as "each segment with its first letter
  capitalized, remainder untouched". These two definitions say that, for comparison with
  \<^const>\<open>to_camel_case\<close>.
\<close>

definition capitalize_keep_rest :: "string \<Rightarrow> string" where
  "capitalize_keep_rest seg = (case seg of [] \<Rightarrow> [] | c # cs \<Rightarrow> upper_char c # cs)"

definition camel_case_spec :: "string \<Rightarrow> string" where
  "camel_case_spec name = concat (map capitalize_keep_rest (re_split name))"

subsection \<open>Predicates of the statements\<close>

text \<open>A name put together from segments and the separators between them.\<close>

fun join_segments :: "string list \<Rightarrow> string \<Rightarrow> string" where
  "join_segments [] seps = []"
| "join_segments [w] seps = w"
| "join_segments (w # ws) [] = w"
| "join_segments (w # ws) (s # seps) = w @ s # join_segments ws seps"

text \<open>"Applying all rules in order changes the content" of the file at \<open>p\<close>.\<close>

definition changes :: "replacer \<Rightarrow> world \<Rightarrow> path \<Rightarrow> bool" where
  "changes r w p =
     (case read_text w p of
        Inl e \<Rightarrow> False
      | Inr c \<Rightarrow> apply_replacements (replacements r) c \<noteq> c)"




subsection \<open>A sample project\<close>

text \<open>
  A project root with two of the nine targets as text, one target that is not valid
  UTF-8, six targets missing, and a backup directory left by an earlier run.
\<close>

definition example_world :: world where
  "example_world =
     \<lparr>fs = [([], Dir),
             ([''CMakeLists.txt''], File \<lparr>data = Text ''project(cpp-template)'', mtime = 1\<rparr>),
             ([''README.md''], File \<lparr>data = Binary [CHR 0xFF], mtime = 2\<rparr>),
             ([''tests''], Dir),
             ([''tests'', ''CMakeLists.txt''],
              File \<lparr>data = Text ''add_test(unit)'', mtime = 3\<rparr>),
             ([''.backup_placeholders''], Dir),
             ([''.backup_placeholders'', ''stale.txt''],
              File \<lparr>data = Text ''old'', mtime = 0\<rparr>)],
      out = [], now = 10, events = []\<rparr>"

definition example_replacer :: replacer where
  "example_replacer =
     \<lparr>new_name = ''my-project'', backup = True,
      replacements = generate_replacements ''my-project''\<rparr>"

section \<open>Properties of validation\<close>

lemmas char_class_defs =
  ascii_lowercase_def ascii_uppercase_def digits_def newline_def
  is_separator_def is_letter_def is_name_char_def at_dollar_def

lemmas case_defs = upper_char_def lower_char_def str_upper_def str_lower_def

lemma newline_not_name_char: "\<not> is_name_char newline"
  by (simp add: char_class_defs)

lemma dropWhile_name_chars_newline:
  "\<forall>x\<in>set cs. is_name_char x \<Longrightarrow> dropWhile is_name_char (cs @ [newline]) = [newline]"
  by (induction cs) (simp_all add: newline_not_name_char)

lemma dropWhile_eq_newline:
  "dropWhile is_name_char cs = [newline] \<longleftrightarrow>
     (\<exists>pre. cs = pre @ [newline] \<and> (\<forall>x\<in>set pre. is_name_char x))"
proof
  assume a: "dropWhile is_name_char cs = [newline]"
  have "cs = takeWhile is_name_char cs @ dropWhile is_name_char cs" by simp
  with a have "cs = takeWhile is_name_char cs @ [newline]" by simp
  moreover have "\<forall>x\<in>set (takeWhile is_name_char cs). is_name_char x"
    by (auto dest: set_takeWhileD)
  ultimately show "\<exists>pre. cs = pre @ [newline] \<and> (\<forall>x\<in>set pre. is_name_char x)" by blast
next
  assume "\<exists>pre. cs = pre @ [newline] \<and> (\<forall>x\<in>set pre. is_name_char x)"
  then obtain pre where "cs = pre @ [newline]" "\<forall>x\<in>set pre. is_name_char x" by blast
  then show "dropWhile is_name_char cs = [newline]"
    by (simp only: dropWhile_name_chars_newline)
qed

text \<open>
  What validation accepts: a letter, then name characters, then nothing or one line
  feed, 50 characters at most in all.
\<close>

lemma validate_project_name_iff:
  "validate_project_name name = Inr () \<longleftrightarrow>
     (\<exists>c cs. (name = c # cs \<or> name = c # cs @ [newline])
        \<and> is_letter c \<and> (\<forall>x\<in>set cs. is_name_char x) \<and> length name \<le> 50)"
proof (cases name)
  case Nil
  then show ?thesis by (simp add: validate_project_name_def)
next
  case (Cons c cs)
  have "at_dollar (dropWhile is_name_char cs) \<longleftrightarrow>
      (\<forall>x\<in>set cs. is_name_char x)
      \<or> (\<exists>pre. cs = pre @ [newline] \<and> (\<forall>x\<in>set pre. is_name_char x))"
    by (simp add: at_dollar_def dropWhile_eq_newline)
  with Cons show ?thesis
    by (auto simp: validate_project_name_def)
qed

text \<open>
  Claim C10. A letter followed by at most 48 letters, digits, hyphens or underscores,
  and then one line feed, passes validation, although the line feed is not a character
  of the class: \<^verbatim>\<open>$\<close> matches just before a final line feed.
\<close>

theorem C10_trailing_newline_accepted:
  assumes "is_letter c" and "\<forall>x\<in>set cs. is_name_char x" and "length (c # cs) \<le> 49"
  shows "validate_project_name ((c # cs) @ [newline]) = Inr () \<and> \<not> is_name_char newline"
  using assms
  by (simp add: validate_project_name_def dropWhile_name_chars_newline at_dollar_def
      newline_not_name_char)

theorem C10_trailing_newline_accepted_witness:
  "validate_project_name (''abc'' @ [newline]) = Inr () \<and> \<not> is_name_char newline"
proof -
  have l: "is_letter CHR ''a''" by (simp add: char_class_defs)
  have r: "\<forall>x\<in>set ''bc''. is_name_char x" by (simp add: char_class_defs)
  have n: "length (CHR ''a'' # ''bc'') \<le> 49" by simp
  show ?thesis
    using C10_trailing_newline_accepted [OF l r n] by simp
qed

text \<open>
  Claim C5 says that validation fails for every string with a character outside
  \<^verbatim>\<open>[A-Za-z0-9_-]\<close>. The name \<^verbatim>\<open>abc\n\<close> contains the line feed and passes.
\<close>

theorem C5_newline_name_passes:
  "validate_project_name [CHR ''a'', CHR ''b'', CHR ''c'', newline] = Inr ()
   \<and> newline \<in> set [CHR ''a'', CHR ''b'', CHR ''c'', newline] \<and> \<not> is_name_char newline"
  by (simp add: validate_project_name_def char_class_defs)

section \<open>Properties of the rules\<close>

lemma re_split_plain:
  "\<forall>c\<in>set w. \<not> is_separator c \<Longrightarrow> re_split w = [w]"
  by (induction w) auto

lemma re_split_append:
  "\<forall>c\<in>set w. \<not> is_separator c \<Longrightarrow> is_separator s \<Longrightarrow>
   re_split (w @ s # rest) = w # re_split rest"
  by (induction w) auto

lemma re_split_join:
  "\<lbrakk>segs \<noteq> []; \<forall>w\<in>set segs. \<forall>c\<in>set w. \<not> is_separator c; \<forall>s\<in>set seps. is_separator s;
    length seps + 1 = length segs\<rbrakk> \<Longrightarrow> re_split (join_segments segs seps) = segs"
proof (induction segs seps rule: join_segments.induct)
  case (4 w v ws s seps)
  then show ?case by (simp add: re_split_append)
qed (simp_all add: re_split_plain)

lemma join_segments_Cons:
  "join_segments ((c # w) # ws) seps = c # join_segments (w # ws) seps"
  by (cases ws; cases seps) simp_all

text \<open>Every name is made of separator-free segments with one separator between two.\<close>

lemma every_name_is_joined:
  "\<exists>segs seps. name = join_segments segs seps \<and> segs \<noteq> []
     \<and> (\<forall>w\<in>set segs. \<forall>c\<in>set w. \<not> is_separator c) \<and> (\<forall>s\<in>set seps. is_separator s)
     \<and> length seps + 1 = length segs"
proof (induction name)
  case Nil
  show ?case by (rule exI [of _ "[[]]"], rule exI [of _ "[]"]) simp
next
  case (Cons c cs)
  then obtain segs seps where j: "cs = join_segments segs seps" "segs \<noteq> []"
    "\<forall>w\<in>set segs. \<forall>c\<in>set w. \<not> is_separator c" "\<forall>s\<in>set seps. is_separator s"
    "length seps + 1 = length segs" by blast
  from j(2) obtain w ws where segs: "segs = w # ws" by (cases segs) auto
  show ?case
  proof (cases "is_separator c")
    case True
    with j segs show ?thesis
      by (intro exI [of _ "[] # segs"] exI [of _ "c # seps"]) auto
  next
    case False
    with j segs show ?thesis
      by (intro exI [of _ "(c # w) # ws"] exI [of _ seps]) (auto simp: join_segments_Cons)
  qed
qed

text \<open>
  Claim C2, amended. For a name made of separator-free segments joined by hyphens or
  underscores, rule 5 maps \<^verbatim>\<open>CppTemplate\<close> to the concatenation of the segments, each
  with its first character upper-cased and the rest of the segment lower-cased.
\<close>

theorem C2_camel_case_lowers_rest:
  assumes "segs \<noteq> []" and "\<forall>w\<in>set segs. \<forall>c\<in>set w. \<not> is_separator c"
    and "\<forall>s\<in>set seps. is_separator s" and "length seps + 1 = length segs"
  shows "generate_replacements (join_segments segs seps) ! 4 =
    (''CppTemplate'',
     concat (map (\<lambda>seg. case seg of [] \<Rightarrow> [] | c # cs \<Rightarrow> upper_char c # str_lower cs) segs))"
proof -
  have "str_capitalize = (\<lambda>seg. case seg of [] \<Rightarrow> [] | c # cs \<Rightarrow> upper_char c # str_lower cs)"
    by (rule ext) (simp add: str_lower_def split: list.splits)
  then show ?thesis
    using re_split_join [OF assms]
    by (simp add: generate_replacements_def to_camel_case_def)
qed

theorem C2_camel_case_lowers_rest_witness:
  "generate_replacements ''myABC-lib'' ! 4 = (''CppTemplate'', ''MyabcLib'')"
  using C2_camel_case_lowers_rest [of "[''myABC'', ''lib'']" "''-''"]
  by (simp add: is_separator_def case_defs char_class_defs)

text \<open>
  Claim C2 as stated fails: for the valid name \<^verbatim>\<open>myABC-lib\<close> the script derives
  \<^verbatim>\<open>MyabcLib\<close>, the specification's wording gives \<^verbatim>\<open>MyABCLib\<close>.
\<close>

theorem C2_counterexample:
  "validate_project_name ''myABC-lib'' = Inr ()
   \<and> snd (generate_replacements ''myABC-lib'' ! 4) = ''MyabcLib''
   \<and> camel_case_spec ''myABC-lib'' = ''MyABCLib''
   \<and> snd (generate_replacements ''myABC-lib'' ! 4) \<noteq> camel_case_spec ''myABC-lib''"
  by (simp add: validate_project_name_def generate_replacements_def to_camel_case_def
      camel_case_spec_def capitalize_keep_rest_def case_defs char_class_defs)













section \<open>Properties of the replacement pass\<close>

lemma print_fields [simp]:
  "fs (print m w) = fs w" "now (print m w) = now w" "events (print m w) = events w"
  "out (print m w) = out w @ [m]"
  by (simp_all add: print_def)

lemma record_event_fields [simp]:
  "fs (record_event e w) = fs w" "now (record_event e w) = now w"
  "events (record_event e w) = events w @ [e]" "out (record_event e w) = out w"
  by (simp_all add: record_event_def)

lemma tick_fields [simp]:
  "fs (tick w) = fs w" "now (tick w) = Suc (now w)" "events (tick w) = events w"
  "out (tick w) = out w"
  by (simp_all add: tick_def)

lemma store_fields [simp]:
  "fs (store p n w) = AList.update p n (fs w)" "now (store p n w) = now w"
  "events (store p n w) = events w" "out (store p n w) = out w"
  by (simp_all add: store_def)

lemma lookup_print [simp]: "lookup (print m w) p = lookup w p"
  by (simp add: lookup_def)

lemma lookup_record_event [simp]: "lookup (record_event e w) p = lookup w p"
  by (simp add: lookup_def)

lemma lookup_tick [simp]: "lookup (tick w) p = lookup w p"
  by (simp add: lookup_def)

lemma lookup_store [simp]: "lookup (store p n w) q = (if q = p then Some n else lookup w q)"
  by (simp add: lookup_def update_conv')

lemma exists_print [simp]: "exists (print m w) p = exists w p"
  by (simp add: exists_def)

lemma read_text_print [simp]: "read_text (print m w) p = read_text w p"
  by (simp add: read_text_def)

lemma read_text_exists: "read_text w p = Inr c \<Longrightarrow> exists w p"
  by (auto simp: read_text_def exists_def split: option.splits)

lemma read_text_is_file:
  "read_text w p = Inr c \<Longrightarrow> \<exists>f. lookup w p = Some (File f)"
  by (auto simp: read_text_def split: option.splits node.splits)

lemma write_text_existing:
  "read_text w p = Inr c \<Longrightarrow>
   write_text p s w =
     Inr (record_event (Ev_write p) (tick (store p (File \<lparr>data = Text s, mtime = now w\<rparr>) w)))"
  by (auto simp: write_text_def dest!: read_text_is_file)

lemma process_file_changed:
  assumes "read_text w p = Inr c" and "apply_replacements (replacements r) c \<noteq> c"
  shows "process_file r p w =
    (True, print (Msg_updated p)
       (record_event (Ev_write p)
          (tick (store p (File \<lparr>data = Text (apply_replacements (replacements r) c),
                               mtime = now w\<rparr>) w))))"
  using assms read_text_exists [OF assms(1)]
  by (simp add: process_file_def write_text_existing Let_def)

lemma process_file_unchanged:
  assumes "\<not> changes r w p"
  shows "\<exists>m. process_file r p w = (False, print m w)"
  using assms
  by (auto simp: process_file_def changes_def Let_def split: sum.splits)

lemma process_file_fst: "fst (process_file r p w) = changes r w p"
proof (cases "changes r w p")
  case True
  then obtain c where c: "read_text w p = Inr c" "apply_replacements (replacements r) c \<noteq> c"
    by (auto simp: changes_def split: sum.splits)
  from process_file_changed [OF c] True show ?thesis by simp
next
  case False
  from process_file_unchanged [OF False] False show ?thesis by auto
qed

lemma process_file_lookup_other:
  "q \<noteq> p \<Longrightarrow> lookup (snd (process_file r p w)) q = lookup w q"
proof (cases "changes r w p")
  case True
  assume "q \<noteq> p"
  from True obtain c where c: "read_text w p = Inr c" "apply_replacements (replacements r) c \<noteq> c"
    by (auto simp: changes_def split: sum.splits)
  from process_file_changed [OF c] \<open>q \<noteq> p\<close> show ?thesis by simp
next
  case False
  from process_file_unchanged [OF False] show ?thesis by auto
qed

lemma process_file_exists: "exists (snd (process_file r p w)) q = exists w q"
proof (cases "changes r w p")
  case True
  then obtain c where c: "read_text w p = Inr c" "apply_replacements (replacements r) c \<noteq> c"
    by (auto simp: changes_def split: sum.splits)
  from process_file_changed [OF c] read_text_exists [OF c(1)] show ?thesis
    by (auto simp: exists_def)
next
  case False
  from process_file_unchanged [OF False] show ?thesis by auto
qed

lemma changes_cong: "lookup w' p = lookup w p \<Longrightarrow> changes r w' p = changes r w p"
  by (simp add: changes_def read_text_def)

lemma process_file_missing:
  "\<not> exists w p \<Longrightarrow> process_file r p w = (False, print (Msg_file_not_found p) w)"
  by (simp add: process_file_def)

lemma missing_not_changes: "\<not> exists w p \<Longrightarrow> \<not> changes r w p"
  by (auto simp: changes_def exists_def read_text_def)

lemma process_file_out:
  "\<exists>m. out (snd (process_file r p w)) = out w @ [m] \<and>
       m \<in> {Msg_file_not_found p, Msg_updated p, Msg_no_changes p}
            \<union> range (Msg_error_processing p)"
  by (auto simp: process_file_def Let_def write_text_existing split: sum.splits)

lemma process_files_processed:
  "processed (fst (process_files r ps st w)) = processed st + length ps"
  by (induction ps arbitrary: st w) (auto simp: Let_def split: prod.splits)

lemma process_files_errors:
  "errors (fst (process_files r ps st w)) = errors st"
  by (induction ps arbitrary: st w) (auto simp: Let_def split: prod.splits)

lemma process_files_updated:
  "distinct ps \<Longrightarrow>
   updated (fst (process_files r ps st w)) = updated st + length (filter (changes r w) ps)"
proof (induction ps arbitrary: st w)
  case Nil
  then show ?case by simp
next
  case (Cons p ps)
  obtain ok w1 where pf: "process_file r p w = (ok, w1)" by (cases "process_file r p w")
  have ok: "ok = changes r w p" using process_file_fst [of r p w] pf by simp
  have same: "filter (changes r w1) ps = filter (changes r w) ps"
  proof (rule filter_cong [OF refl])
    fix q assume "q \<in> set ps"
    with Cons.prems have "q \<noteq> p" by auto
    from process_file_lookup_other [OF this, of r w] pf
    have "lookup w1 q = lookup w q" by simp
    then show "changes r w1 q = changes r w q" by (rule changes_cong)
  qed
  from Cons.prems have d: "distinct ps" by simp
  show ?case
    using Cons.IH [OF d, of _ w1] pf ok same by (simp add: Let_def)
qed

lemma process_files_out_mono:
  "set (out w) \<subseteq> set (out (snd (process_files r ps st w)))"
proof (induction ps arbitrary: st w)
  case Nil
  then show ?case by simp
next
  case (Cons p ps)
  obtain ok w1 where pf: "process_file r p w = (ok, w1)" by (cases "process_file r p w")
  from process_file_out [of r p w] pf have "set (out w) \<subseteq> set (out w1)" by auto
  with Cons.IH [of w1] pf show ?case by (auto simp: Let_def)
qed

lemma process_files_warns:
  "p \<in> set ps \<Longrightarrow> \<not> exists w p \<Longrightarrow>
   Msg_file_not_found p \<in> set (out (snd (process_files r ps st w)))"
proof (induction ps arbitrary: st w)
  case Nil
  then show ?case by simp
next
  case (Cons q ps)
  obtain ok w1 where pf: "process_file r q w = (ok, w1)" by (cases "process_file r q w")
  show ?case
  proof (cases "q = p")
    case True
    with Cons.prems pf have "Msg_file_not_found p \<in> set (out w1)"
      by (auto simp: process_file_missing)
    with process_files_out_mono [where w = w1 and r = r and ps = ps] pf show ?thesis by (auto simp: Let_def)
  next
    case False
    with Cons.prems have "p \<in> set ps" by simp
    moreover have "\<not> exists w1 p"
      using process_file_exists [of r q w p] pf Cons.prems by simp
    ultimately show ?thesis using Cons.IH [of w1] pf by (simp add: Let_def)
  qed
qed

lemma process_files_no_error_for_missing:
  "\<not> exists w p \<Longrightarrow>
   Msg_error_processing p e \<in> set (out (snd (process_files r ps st w))) \<Longrightarrow>
   Msg_error_processing p e \<in> set (out w)"
proof (induction ps arbitrary: st w)
  case Nil
  then show ?case by simp
next
  case (Cons q ps)
  obtain ok w1 where pf: "process_file r q w = (ok, w1)" by (cases "process_file r q w")
  have ex: "\<not> exists w1 p"
    using process_file_exists [of r q w p] pf Cons.prems by simp
  obtain st1 where step: "process_files r (q # ps) st w = process_files r ps st1 w1"
    using pf by (simp add: Let_def)
  from Cons.prems(2) have "Msg_error_processing p e \<in> set (out (snd (process_files r ps st1 w1)))"
    unfolding step .
  from Cons.IH [OF ex this] have in1: "Msg_error_processing p e \<in> set (out w1)" .
  show ?case
  proof (cases "q = p")
    case True
    with Cons.prems pf in1 show ?thesis by (auto simp: process_file_missing)
  next
    case False
    with process_file_out [of r q w] pf in1 show ?thesis by auto
  qed
qed

lemma distinct_files_to_process: "distinct files_to_process"
  by (simp add: files_to_process_def)



lemmas rule_defs =
  generate_replacements_def to_camel_case_def snake_def str_replace_def case_defs char_class_defs

lemma example_read_cmake:
  "read_text example_world [''CMakeLists.txt''] = Inr ''project(cpp-template)''"
  by (simp add: read_text_def lookup_def example_world_def)


lemma example_apply_cmake:
  "apply_replacements (replacements example_replacer) ''project(cpp-template)''
     = ''project(my-project)''"
  by (simp add: example_replacer_def rule_defs)

lemma example_apply_tests:
  "apply_replacements (replacements example_replacer) ''add_test(unit)'' = ''add_test(unit)''"
  by (simp add: example_replacer_def rule_defs)

lemma example_changes_cmake: "changes example_replacer example_world [''CMakeLists.txt'']"
  by (simp add: changes_def example_read_cmake example_apply_cmake)




text \<open>
  Claim C9. A target that does not exist gets the warning and nothing else from
  \<^verbatim>\<open>process_file\<close>. In the pass over the nine targets it is counted in \<open>processed\<close>,
  which ends at nine whatever exists; \<open>updated\<close> ends as the number of targets whose text
  the rules change, and a missing target is not one of them. The warning for it is in
  the output of the pass, and the pass prints no error line for it.
\<close>

theorem C9_missing_target:
  assumes "p \<in> set files_to_process" and "\<not> exists w p"
    and "process_all_files r w = (st, w')"
  shows "process_file r p w = (False, print (Msg_file_not_found p) w)
    \<and> processed st = length files_to_process
    \<and> updated st = length (filter (changes r w) files_to_process)
    \<and> \<not> changes r w p
    \<and> Msg_file_not_found p \<in> set (out w')
    \<and> (\<forall>e. Msg_error_processing p e \<in> set (out w') \<longrightarrow> Msg_error_processing p e \<in> set (out w))"
proof -
  let ?w0 = "print (Msg_replacing (new_name r)) w"
  let ?st0 = "\<lparr>processed = 0, updated = 0, errors = 0\<rparr>"
  have run: "process_files r files_to_process ?st0 ?w0 = (st, w')"
    using assms(3) by (simp add: process_all_files_def)
  have ex: "\<not> exists ?w0 p" using assms(2) by simp
  have ch: "changes r ?w0 = changes r w"
    by (rule ext) (simp add: changes_def)
  have "processed st = length files_to_process"
    using process_files_processed [of r files_to_process ?st0 ?w0] run by simp
  moreover have "updated st = length (filter (changes r w) files_to_process)"
    using process_files_updated [OF distinct_files_to_process, of r ?st0 ?w0] run ch by simp
  moreover have "Msg_file_not_found p \<in> set (out w')"
    using process_files_warns [OF assms(1) ex, of r ?st0] run by simp
  moreover have "Msg_error_processing p e \<in> set (out w') \<Longrightarrow> Msg_error_processing p e \<in> set (out w)" for e
    using process_files_no_error_for_missing [OF ex, of e r files_to_process ?st0] run by simp
  ultimately show ?thesis
    using process_file_missing [OF assms(2)] missing_not_changes [OF assms(2)] by blast
qed

lemma example_missing_vcpkg: "\<not> exists example_world [''vcpkg.json'']"
  by (simp add: exists_def lookup_def example_world_def)

lemma example_changes_count:
  "length (filter (changes example_replacer example_world) files_to_process) = 1"
  by (simp add: files_to_process_def changes_def read_text_def lookup_def example_world_def
      example_apply_cmake example_apply_tests)

theorem C9_missing_target_witness:
  "process_file example_replacer [''vcpkg.json''] example_world
     = (False, print (Msg_file_not_found [''vcpkg.json'']) example_world)
   \<and> processed (fst (process_all_files example_replacer example_world)) = 9
   \<and> updated (fst (process_all_files example_replacer example_world)) = 1
   \<and> Msg_file_not_found [''vcpkg.json'']
       \<in> set (out (snd (process_all_files example_replacer example_world)))"
proof -
  have t: "[''vcpkg.json''] \<in> set files_to_process" by (simp add: files_to_process_def)
  have l: "length files_to_process = 9" by (simp add: files_to_process_def)
  have e: "process_all_files example_replacer example_world
    = (fst (process_all_files example_replacer example_world),
       snd (process_all_files example_replacer example_world))" by simp
  from C9_missing_target [OF t example_missing_vcpkg e] l example_changes_count
  show ?thesis by simp
qed

lemma process_all_files_errors: "errors (fst (process_all_files r w)) = 0"
  by (simp add: process_all_files_def process_files_errors)

text \<open>
  Claim C1 says that a target that cannot be decoded adds one to the \<open>errors\<close> counter.
  In the sample project \<^verbatim>\<open>README.md\<close> is not valid UTF-8: the pass prints the error line
  for it and goes on to the other targets, all nine are counted as processed, and
  \<open>errors\<close> is still 0 at the end.
\<close>

theorem C1_decode_error_not_counted:
  "read_text example_world [''README.md''] = Inl UnicodeDecodeError
   \<and> Msg_error_processing [''README.md''] UnicodeDecodeError
       \<in> set (out (snd (process_all_files example_replacer example_world)))
   \<and> processed (fst (process_all_files example_replacer example_world)) = 9
   \<and> errors (fst (process_all_files example_replacer example_world)) = 0"
  by (simp add: process_all_files_def files_to_process_def process_file_def exists_def
      read_text_def write_text_def lookup_def example_world_def Let_def
      example_replacer_def rule_defs print_def store_def tick_def record_event_def)

section \<open>Properties of the file operations\<close>







lemma copy2_succeeds:
  "lookup w src = Some (File f) \<Longrightarrow> lookup w dst \<noteq> Some Dir \<Longrightarrow>
   lookup w (parent dst) = Some Dir \<Longrightarrow>
   copy2 src dst w = Inr (record_event (Ev_copy src dst) (store dst (File f) w))"
  by (auto simp: copy2_def Let_def split: option.splits node.splits)

section \<open>Properties of the backup\<close>













section \<open>Properties of the run\<close>















text \<open>
  Claim C8. With \<^verbatim>\<open>--dry-run\<close>, whatever \<^verbatim>\<open>--no-backup\<close> is, \<^verbatim>\<open>main\<close> leaves the tree, the
  clock and the operation log as they were: no file is modified and no backup directory
  appears. It returns normally only when the name is valid, and then its last two lines
  are the rule list derived from the name and the number of targets; with the root and a
  readable \<^verbatim>\<open>CMakeLists.txt\<close> in place, no prompt and a valid name it does return
  normally.
\<close>

theorem C8_dry_run_touches_nothing:
  assumes "dry_run a" and "main a stdin w = (oc, w')"
  shows "fs w' = fs w \<and> now w' = now w \<and> events w' = events w
    \<and> exists w' backup_dir = exists w backup_dir
    \<and> (oc = Returned \<longrightarrow>
          validate_project_name (project_name a) = Inr ()
          \<and> (\<exists>ms. out w' = out w @ ms @ [Msg_would_apply (generate_replacements (project_name a)),
                                           Msg_would_process 9]))
    \<and> (exists w [] \<and> validate_project_name (project_name a) = Inr ()
        \<and> (\<exists>c. read_text w [''CMakeLists.txt''] = Inr c
                \<and> \<not> str_contains (''project('' @ project_name a) c)
        \<longrightarrow> oc = Returned)"
proof -
  have len: "length files_to_process = 9" by (simp add: files_to_process_def)
  have R: "main_replace a v = (oc, w') \<Longrightarrow>
      fs w' = fs v \<and> now w' = now v \<and> events w' = events v
      \<and> (oc = Returned \<longleftrightarrow> validate_project_name (project_name a) = Inr ())
      \<and> (oc = Returned \<longrightarrow>
           out w' = out v @ [Msg_dry_run_mode,
              Msg_would_apply (generate_replacements (project_name a)), Msg_would_process 9])"
    for v
    using assms(1)
    by (auto simp: main_replace_def init_replacer_def Let_def len split: sum.splits)
  let ?goal = "\<lambda>w0. fs w' = fs w0 \<and> now w' = now w0 \<and> events w' = events w0
    \<and> exists w' backup_dir = exists w0 backup_dir"
  have same: "fs w' = fs w \<Longrightarrow> exists w' backup_dir = exists w backup_dir"
    by (simp add: exists_def lookup_def)
  show ?thesis
  proof (cases "exists w [] \<and> exists w [''CMakeLists.txt'']")
    case False
    with assms(2) have "fs w' = fs w \<and> now w' = now w \<and> events w' = events w \<and> oc = Sys_exit 1"
      by (auto simp: main_def split: if_splits)
    moreover from False have "\<not> (exists w [] \<and> (\<exists>c. read_text w [''CMakeLists.txt''] = Inr c))"
      by (auto dest: read_text_exists)
    ultimately show ?thesis using same by auto
  next
    case True
    show ?thesis
    proof (cases "read_text w [''CMakeLists.txt'']")
      case (Inl e)
      with True assms(2) have "w' = w" "oc = Uncaught (OS_error e)"
        by (auto simp: main_def)
      with Inl show ?thesis by simp
    next
      case (Inr c)
      show ?thesis
      proof (cases "str_contains (''project('' @ project_name a) c")
        case False
        with True Inr assms(2) have "main_replace a w = (oc, w')" by (simp add: main_def)
        from R [OF this] same show ?thesis by auto
      next
        case clash: True
        let ?w1 = "print (Msg_already_uses_name (project_name a)) w"
        show ?thesis
        proof (cases stdin)
          case None
          with True Inr clash assms(2) have "w' = ?w1" "oc = Uncaught EOF_error"
            by (auto simp: main_def Let_def)
          with Inr clash same show ?thesis by simp
        next
          case (Some response)
          show ?thesis
          proof (cases "str_lower response = ''y''")
            case False
            with True Inr clash Some assms(2) have "w' = print Msg_aborted ?w1" "oc = Sys_exit 0"
              by (auto simp: main_def Let_def)
            with Inr clash same show ?thesis by simp
          next
            case yes: True
            with True Inr clash Some assms(2) have "main_replace a ?w1 = (oc, w')"
              by (simp add: main_def Let_def)
            from R [OF this] have r: "fs w' = fs w" "now w' = now w" "events w' = events w"
              "oc = Returned \<longrightarrow> validate_project_name (project_name a) = Inr ()"
              "oc = Returned \<longrightarrow> out w' = out w @ [Msg_already_uses_name (project_name a),
                 Msg_dry_run_mode] @ [Msg_would_apply (generate_replacements (project_name a)),
                 Msg_would_process 9]"
              by simp_all
            from r(5) have "oc = Returned \<longrightarrow>
               (\<exists>ms. out w' = out w @ ms @ [Msg_would_apply (generate_replacements (project_name a)),
                 Msg_would_process 9])" by blast
            with r(1-4) Inr clash same show ?thesis by simp
          qed
        qed
      qed
    qed
  qed
qed

theorem C8_dry_run_touches_nothing_witness:
  "fs (snd (main \<lparr>project_name = ''my-project'', no_backup = False, dry_run = True\<rparr>
              None example_world)) = fs example_world
   \<and> fst (main \<lparr>project_name = ''my-project'', no_backup = False, dry_run = True\<rparr>
              None example_world) = Returned
   \<and> fs (snd (main \<lparr>project_name = ''my-project'', no_backup = True, dry_run = True\<rparr>
              None example_world)) = fs example_world
   \<and> fst (main \<lparr>project_name = ''my-project'', no_backup = True, dry_run = True\<rparr>
              None example_world) = Returned"
proof -
  let ?a = "\<lambda>nb. \<lparr>project_name = ''my-project'', no_backup = nb, dry_run = True\<rparr>"
  have m: "main (?a nb) None example_world
      = (fst (main (?a nb) None example_world), snd (main (?a nb) None example_world))" for nb
    by simp
  have d: "dry_run (?a nb)" for nb by simp
  have root: "exists example_world []" by (simp add: exists_def lookup_def example_world_def)
  have v: "validate_project_name ''my-project'' = Inr ()"
    by (simp add: validate_project_name_def char_class_defs)
  have c: "\<not> str_contains (''project('' @ ''my-project'') ''project(cpp-template)''" by simp
  from C8_dry_run_touches_nothing [OF d m, of False] C8_dry_run_touches_nothing [OF d m, of True]
    root v c example_read_cmake
  show ?thesis by simp
qed

end
